theory Spec2Isabelle
  imports Main
begin

section \<open>Requests, responses and object identity\<close>

text \<open>
  The engine of \<^verbatim>\<open>chain.ts\<close> works on the platform's \<^verbatim>\<open>Request\<close> and
  \<^verbatim>\<open>Response\<close> objects. Each of them is an object with an identity and with
  observable content: for a request its URL, method, headers and body, for a response
  its status, headers and body, and for both whether the body has been used (read,
  or taken over by another object). The objects live in a heap; a reference is the
  position of the object in the heap, so a new object is never instance-equal to an
  older one. A reference at or beyond the length of the heap stands for a value that is
  no object (\<^verbatim>\<open>undefined\<close>, a number): a method call on it raises.
\<close>

type_synonym ref = nat

record request =
  req_url :: string
  req_method :: string
  req_headers :: "(string \<times> string) list"
  req_body :: "string option"
  req_bodyUsed :: bool

record response =
  res_status :: nat
  res_headers :: "(string \<times> string) list"
  res_body :: "string option"
  res_bodyUsed :: bool

datatype obj = RequestObj request | ResponseObj response

text \<open>
  A handler may throw any value; the engine itself raises only what the platform
  raises: a \<^verbatim>\<open>TypeError\<close> (a method call on a value that has no such method, a call
  of a value that is not callable, a duplication of an object whose body has been
  used) or the \<^verbatim>\<open>RangeError\<close> of the response constructor.
\<close>

datatype error = TypeError | RangeError | Thrown string

text \<open>
  The state that the calls thread: the heap of request and response objects, the
  number of arrays created so far (the identity of the next array, needed for the
  \<^verbatim>\<open>WeakSet\<close> of \<^verbatim>\<open>chain\<close>), and the state of the user's own code
  (spies, logs).
\<close>

record 'u state =
  heap :: "obj list"
  arrays :: nat
  user :: 'u

text \<open>
  A computation returns a value or fails, and changes the state. A promise is
  modelled by its settled outcome, \<^verbatim>\<open>await\<close> by sequencing.
\<close>

type_synonym ('a, 'u) comp = "'u state \<Rightarrow> (error + 'a) \<times> 'u state"

text \<open>\<^verbatim>\<open>types.ts\<close>: \<^verbatim>\<open>NextHandler\<close> takes an optional request,
  \<^verbatim>\<open>ChainableHandler\<close> takes a request and the next handler.\<close>

type_synonym 'u NextHandler = "ref option \<Rightarrow> (ref, 'u) comp"

type_synonym 'u ChainableHandler = "ref \<Rightarrow> 'u NextHandler \<Rightarrow> (ref, 'u) comp"

text \<open>
  The entries of a handler sequence as the running program sees them. The type
  \<^verbatim>\<open>readonly ChainableHandler[]\<close> is erased at run time, so an entry is a function,
  a falsy value (\<^verbatim>\<open>undefined\<close>, \<^verbatim>\<open>null\<close>, \<^verbatim>\<open>0\<close>, \<^verbatim>\<open>""\<close>, \<^verbatim>\<open>false\<close>)
  or some other value that is not callable.
\<close>

datatype 'u entry = Callable "'u ChainableHandler" | Falsy | Truthy

definition falsy :: "'u entry \<Rightarrow> bool" where
  "falsy v = (case v of Falsy \<Rightarrow> True | _ \<Rightarrow> False)"

text \<open>
  The body of an object is unusable when there is one and it has been used. A use of
  the body (a read by \<^verbatim>\<open>text()\<close> or \<^verbatim>\<open>json()\<close>, the constructor of another request
  taking it over) marks an object that has a body.
\<close>

definition unusable :: "obj \<Rightarrow> bool" where
  "unusable ob =
     (case ob of
        RequestObj c \<Rightarrow> req_body c \<noteq> None \<and> req_bodyUsed c
      | ResponseObj c \<Rightarrow> res_body c \<noteq> None \<and> res_bodyUsed c)"

definition mark_used :: "obj \<Rightarrow> obj" where
  "mark_used ob =
     (case ob of
        RequestObj c \<Rightarrow> RequestObj (c\<lparr>req_bodyUsed := req_bodyUsed c \<or> req_body c \<noteq> None\<rparr>)
      | ResponseObj c \<Rightarrow> ResponseObj (c\<lparr>res_bodyUsed := res_bodyUsed c \<or> res_body c \<noteq> None\<rparr>))"

text \<open>\<^verbatim>\<open>x.clone()\<close>: a new object with the content of \<open>x\<close>, which stays as it is; a
  \<^verbatim>\<open>TypeError\<close> when \<open>x\<close> is not an object of the heap or its body is unusable.\<close>

definition clone :: "ref \<Rightarrow> (ref, 'u) comp" where
  "clone r s =
     (if r < length (heap s) \<and> \<not> unusable (heap s ! r)
      then (Inr (length (heap s)), s\<lparr>heap := heap s @ [heap s ! r]\<rparr>)
      else (Inl TypeError, s))"

text \<open>\<^verbatim>\<open>new Request(request)\<close>: a \<^verbatim>\<open>TypeError\<close> when the body of the given request is
  unusable; otherwise a new request object with the content of the given one, whose
  body it takes over: the given request is left with its body used.\<close>

definition new_Request :: "ref \<Rightarrow> (ref, 'u) comp" where
  "new_Request r s =
     (if r < length (heap s)
      then (case heap s ! r of
              RequestObj c \<Rightarrow>
                if unusable (RequestObj c) then (Inl TypeError, s)
                else (Inr (length (heap s)),
                      s\<lparr>heap := (heap s)[r := mark_used (RequestObj c)] @ [RequestObj c]\<rparr>)
            | ResponseObj _ \<Rightarrow> (Inl TypeError, s))
      else (Inl TypeError, s))"

text \<open>\<^verbatim>\<open>new Response(body, { status })\<close> with a string or no body: a \<^verbatim>\<open>RangeError\<close>
  for a status outside 200 to 599, a \<^verbatim>\<open>TypeError\<close> for a body with a status that
  allows none; a string body gives the response its content type.\<close>

definition new_Response :: "string option \<Rightarrow> nat \<Rightarrow> (ref, 'u) comp" where
  "new_Response body status s =
     (if status < 200 \<or> 599 < status then (Inl RangeError, s)
      else if body \<noteq> None \<and> status \<in> {204, 205, 304} then (Inl TypeError, s)
      else (Inr (length (heap s)),
            s\<lparr>heap := heap s @
                 [ResponseObj \<lparr>res_status = status,
                    res_headers = (case body of
                                     None \<Rightarrow> []
                                   | Some _ \<Rightarrow> [(''content-type'', ''text/plain;charset=UTF-8'')]),
                    res_body = body, res_bodyUsed = False\<rparr>]\<rparr>))"

text \<open>\<^verbatim>\<open>(await x).clone()\<close>: a failure of the awaited call is passed on, its value is
  cloned.\<close>

definition await_clone :: "(error + ref) \<times> 'u state \<Rightarrow> (error + ref) \<times> 'u state" where
  "await_clone x = (case x of (Inl e, s) \<Rightarrow> (Inl e, s) | (Inr r, s) \<Rightarrow> clone r s)"

text \<open>A rest parameter \<^verbatim>\<open>...handlers\<close> is a new array at every call.\<close>

definition new_array :: "'u state \<Rightarrow> nat \<times> 'u state" where
  "new_array s = (arrays s, s\<lparr>arrays := Suc (arrays s)\<rparr>)"

section \<open>The execution engine\<close>

text \<open>
  \<^verbatim>\<open>
  export function chain(request, response, ...handlers) {
    const seen = new WeakSet<readonly ChainableHandler[]>();

    const run: typeof chain = async (request, response, ...handlers) => {
      // Recursive safe
      if (seen.has(handlers)) return response.clone();

      const [first, ...rest] = handlers;

      if (!first) return response.clone();

      const nextHandler: NextHandler = async (nextRequest = request) =>
        (await run(nextRequest.clone(), response.clone(), ...rest)).clone();

      return (await first(request.clone(), nextHandler)).clone();
    };

    return run(request, response, ...handlers);
  }
  \<close>
  \<open>seen\<close> is the set of the arrays that \<^verbatim>\<open>seen.has\<close> answers true for. The source
  creates it empty and calls no other method of it, so \<open>run\<close> takes it as a value.
  The array \<open>handlers\<close> of \<open>run\<close> is the pair of its identity \<open>hid\<close> and its
  elements.
\<close>

function run :: "nat list \<Rightarrow> 'u entry list \<Rightarrow> ref \<Rightarrow> ref \<Rightarrow> (ref, 'u) comp" where
  "run seen handlers request response s =
     (let (hid, s0) = new_array s in
      if hid \<in> set seen then clone response s0
      else
        let first = (case handlers of [] \<Rightarrow> Falsy | x # _ \<Rightarrow> x);
            rest = tl handlers
        in if falsy first then clone response s0
           else
             let nextHandler = (\<lambda>nextRequest s.
                   case clone (case nextRequest of None \<Rightarrow> request | Some r \<Rightarrow> r) s of
                     (Inl e, s1) \<Rightarrow> (Inl e, s1)
                   | (Inr rq, s1) \<Rightarrow>
                       (case clone response s1 of
                          (Inl e, s2) \<Rightarrow> (Inl e, s2)
                        | (Inr rs, s2) \<Rightarrow> await_clone (run seen rest rq rs s2)))
             in case clone request s0 of
                  (Inl e, s1) \<Rightarrow> (Inl e, s1)
                | (Inr r0, s1) \<Rightarrow>
                    (case first of
                       Callable f \<Rightarrow> await_clone (f r0 nextHandler s1)
                     | _ \<Rightarrow> (Inl TypeError, s1)))"
  by pat_completeness auto
termination
  by (relation "measure (\<lambda>(seen, handlers, request, response, s). length handlers)")
     (auto simp: falsy_def split: list.splits)

definition chain :: "ref \<Rightarrow> ref \<Rightarrow> 'u entry list \<Rightarrow> (ref, 'u) comp" where
  "chain request response handlers s =
     (let (hid, s0) = new_array s;
          seen = []
      in run seen handlers request response s0)"

text \<open>The closure \<^verbatim>\<open>nextHandler\<close> that \<open>run\<close> builds over \<open>seen\<close>, \<open>rest\<close>,
  \<open>request\<close> and \<open>response\<close>, as a function of its own.\<close>

definition nextHandler :: "nat list \<Rightarrow> 'u entry list \<Rightarrow> ref \<Rightarrow> ref \<Rightarrow> 'u NextHandler" where
  "nextHandler seen rest request response nextRequest s =
     (case clone (case nextRequest of None \<Rightarrow> request | Some r \<Rightarrow> r) s of
        (Inl e, s1) \<Rightarrow> (Inl e, s1)
      | (Inr rq, s1) \<Rightarrow>
          (case clone response s1 of
             (Inl e, s2) \<Rightarrow> (Inl e, s2)
           | (Inr rs, s2) \<Rightarrow> await_clone (run seen rest rq rs s2)))"

section \<open>The builder\<close>

text \<open>
  \<^verbatim>\<open>
  export class Chain implements Chainable {
    #handlers: readonly ChainableHandler[] = [];
    constructor(...init) { this.#handlers = init ?? []; }
    readonly next = (...handlers): this => {
      this.#handlers = this.#handlers.concat(handlers);
      return this;
    };
    get handlers() { return this.#handlers; }
    readonly respond = (request, defaultResponse?) => {
      const newRequest = new Request(request);
      defaultResponse ??= new Response(null, { status: 404 });
      const response = chain(newRequest.clone(), defaultResponse.clone(), ...this.handlers);
      return response;
    };
  }
  \<close>
  A \<^verbatim>\<open>Chain\<close> object has one field, which refers to an array; arrays are objects
  of their own, so that two reads of \<^verbatim>\<open>handlers\<close> can be told apart from one
  read of an array that was changed in between. A reference is again a position.
\<close>

record 'h store =
  handler_arrays :: "'h list list"
  chains :: "ref list"

definition array_alloc :: "'h list \<Rightarrow> 'h store \<Rightarrow> ref \<times> 'h store" where
  "array_alloc xs st =
     (length (handler_arrays st), st\<lparr>handler_arrays := handler_arrays st @ [xs]\<rparr>)"

text \<open>The elements of an array, read through a reference.\<close>

definition elements :: "'h store \<Rightarrow> ref \<Rightarrow> error + 'h list" where
  "elements st a =
     (if a < length (handler_arrays st) then Inr (handler_arrays st ! a) else Inl TypeError)"

text \<open>\<^verbatim>\<open>new Chain(...init)\<close>: the rest parameter \<open>init\<close> is a new array, the field
  initialiser creates an empty one, and the constructor stores \<open>init\<close>
  (\<^verbatim>\<open>init ?? []\<close> is \<open>init\<close>, an array is never nullish).\<close>

definition Chain_new :: "'h list \<Rightarrow> 'h store \<Rightarrow> ref \<times> 'h store" where
  "Chain_new init st =
     (let (a, st1) = array_alloc init st;
          (a0, st2) = array_alloc [] st1
      in (length (chains st2), st2\<lparr>chains := chains st2 @ [a]\<rparr>))"

text \<open>The getter \<^verbatim>\<open>handlers\<close> returns the array of the field itself.\<close>

definition Chain_handlers :: "ref \<Rightarrow> 'h store \<Rightarrow> error + ref" where
  "Chain_handlers this st =
     (if this < length (chains st) then Inr (chains st ! this) else Inl TypeError)"

text \<open>\<^verbatim>\<open>next(...handlers)\<close>: \<^verbatim>\<open>concat\<close> creates a new array from the elements of the
  stored one followed by those of its argument; the field is set to it and
  \<^verbatim>\<open>this\<close> is returned.\<close>

definition Chain_next :: "ref \<Rightarrow> 'h list \<Rightarrow> 'h store \<Rightarrow> error + (ref \<times> 'h store)" where
  "Chain_next this handlers st =
     (let (h, st1) = array_alloc handlers st in
      case Chain_handlers this st1 of
        Inl e \<Rightarrow> Inl e
      | Inr cur \<Rightarrow>
          (case elements st1 cur of
             Inl e \<Rightarrow> Inl e
           | Inr xs \<Rightarrow>
               (case elements st1 h of
                  Inl e \<Rightarrow> Inl e
                | Inr ys \<Rightarrow>
                    (let (new, st2) = array_alloc (xs @ ys) st1
                     in Inr (this, st2\<lparr>chains := (chains st2)[this := new]\<rparr>)))))"

definition Chain_respond ::
  "ref \<Rightarrow> 'u entry store \<Rightarrow> ref \<Rightarrow> ref option \<Rightarrow> (ref, 'u) comp" where
  "Chain_respond this st request defaultResponse s =
     (case new_Request request s of
        (Inl e, s1) \<Rightarrow> (Inl e, s1)
      | (Inr newRequest, s1) \<Rightarrow>
          (case (case defaultResponse of
                   None \<Rightarrow> new_Response None 404 s1
                 | Some d \<Rightarrow> (Inr d, s1)) of
             (Inl e, s2) \<Rightarrow> (Inl e, s2)
           | (Inr dr, s2) \<Rightarrow>
               (case clone newRequest s2 of
                  (Inl e, s3) \<Rightarrow> (Inl e, s3)
                | (Inr rq, s3) \<Rightarrow>
                    (case clone dr s3 of
                       (Inl e, s4) \<Rightarrow> (Inl e, s4)
                     | (Inr rs, s4) \<Rightarrow>
                         (case Chain_handlers this st of
                            Inl e \<Rightarrow> (Inl e, s4)
                          | Inr a \<Rightarrow>
                              (case elements st a of
                                 Inl e \<Rightarrow> (Inl e, s4)
                               | Inr handlers \<Rightarrow> chain rq rs handlers s4))))))"

section \<open>Handlers of the tests\<close>

text \<open>
  The handlers that the tests, the documentation and the properties below pass to the
  engine. \<open>mutate\<close> is any change of one object by the code that holds it.
\<close>

definition mutate :: "ref \<Rightarrow> (obj \<Rightarrow> obj) \<Rightarrow> 'u state \<Rightarrow> 'u state" where
  "mutate r f s = s\<lparr>heap := (heap s)[r := f (heap s ! r)]\<rparr>"

text \<open>
  \<^verbatim>\<open>x.headers.append(name, value)\<close> and \<^verbatim>\<open>x.headers.get(name)\<close>, for a name and a
  value that the platform accepts: a header name is kept in lower case, a value
  without the white space around it, and \<open>get\<close> joins the values of a name.
\<close>

definition lower_char :: "char \<Rightarrow> char" where
  "lower_char c =
     (case map_of (zip ''ABCDEFGHIJKLMNOPQRSTUVWXYZ'' ''abcdefghijklmnopqrstuvwxyz'') c of
        None \<Rightarrow> c
      | Some d \<Rightarrow> d)"

definition http_space :: "char \<Rightarrow> bool" where
  "http_space c = (c \<in> set [CHR '' '', CHR 0x09, CHR 0x0A, CHR 0x0D])"

definition strip :: "string \<Rightarrow> string" where
  "strip v = rev (dropWhile http_space (rev (dropWhile http_space v)))"

fun join_values :: "string list \<Rightarrow> string" where
  "join_values [] = []"
| "join_values [v] = v"
| "join_values (v # w # vs) = v @ '', '' @ join_values (w # vs)"

definition headers_of :: "obj \<Rightarrow> (string \<times> string) list" where
  "headers_of ob = (case ob of RequestObj c \<Rightarrow> req_headers c | ResponseObj c \<Rightarrow> res_headers c)"

definition headers_append :: "string \<Rightarrow> string \<Rightarrow> obj \<Rightarrow> obj" where
  "headers_append name v ob =
     (case ob of
        RequestObj c \<Rightarrow>
          RequestObj (c\<lparr>req_headers := req_headers c @ [(map lower_char name, strip v)]\<rparr>)
      | ResponseObj c \<Rightarrow>
          ResponseObj (c\<lparr>res_headers := res_headers c @ [(map lower_char name, strip v)]\<rparr>))"

definition headers_get :: "string \<Rightarrow> obj \<Rightarrow> string option" where
  "headers_get name ob =
     (let vs = map snd (filter (\<lambda>(k, v). k = map lower_char name) (headers_of ob))
      in if vs = [] then None else Some (join_values vs))"

text \<open>\<^verbatim>\<open>const justThrough: ChainableHandler = (_, next) => next();\<close>\<close>

definition justThrough :: "'u ChainableHandler" where
  "justThrough r next = next None"

text \<open>\<^verbatim>\<open>spy(() => new Response())\<close>: the user state counts the calls.\<close>

definition spy_handler :: "nat ChainableHandler" where
  "spy_handler r next s = new_Response None 200 (s\<lparr>user := Suc (user s)\<rparr>)"

text \<open>\<^verbatim>\<open>() => new Response(body)\<close>\<close>

definition respond_with :: "string \<Rightarrow> 'u ChainableHandler" where
  "respond_with body r next s = new_Response (Some body) 200 s"

text \<open>
  \<^verbatim>\<open>
  async (_, next) => {
    let res = new Response();
    for (let i = 0; i < k; i++) res = await next();
    return res;
  }
  \<close>
\<close>

fun next_times :: "nat \<Rightarrow> 'u NextHandler \<Rightarrow> ref \<Rightarrow> (ref, 'u) comp" where
  "next_times 0 next res s = (Inr res, s)"
| "next_times (Suc k) next res s =
     (case next None s of
        (Inl e, s') \<Rightarrow> (Inl e, s')
      | (Inr res', s') \<Rightarrow> next_times k next res' s')"

definition calls_next :: "nat \<Rightarrow> 'u ChainableHandler" where
  "calls_next k r next s =
     (case new_Response None 200 s of
        (Inl e, s') \<Rightarrow> (Inl e, s')
      | (Inr x, s') \<Rightarrow> next_times k next x s')"

text \<open>
  The logger of the documentation, with any effect before and after the one call of
  the next handler:
  \<^verbatim>\<open>
  async (request, next) => {
    before(request);
    const response = await next();
    after(request, response);
    return response;
  }
  \<close>
\<close>

definition around ::
  "(ref \<Rightarrow> 'u state \<Rightarrow> 'u state) \<Rightarrow> (ref \<Rightarrow> ref \<Rightarrow> 'u state \<Rightarrow> 'u state) \<Rightarrow> 'u ChainableHandler" where
  "around before after r next s =
     (case next None (before r s) of
        (Inl e, s') \<Rightarrow> (Inl e, s')
      | (Inr res, s') \<Rightarrow> (Inr res, after r res s'))"

text \<open>\<^verbatim>\<open>await x.text()\<close>: a \<^verbatim>\<open>TypeError\<close> when the body of \<open>x\<close> is unusable;
  otherwise the text of the body, which is used from then on.\<close>

definition body_of :: "obj \<Rightarrow> string option" where
  "body_of ob = (case ob of RequestObj c \<Rightarrow> req_body c | ResponseObj c \<Rightarrow> res_body c)"

definition read_body :: "ref \<Rightarrow> (string, 'u) comp" where
  "read_body r s =
     (if r < length (heap s) \<and> \<not> unusable (heap s ! r)
      then (Inr (case body_of (heap s ! r) of None \<Rightarrow> [] | Some b \<Rightarrow> b),
            s\<lparr>heap := (heap s)[r := mark_used (heap s ! r)]\<rparr>)
      else (Inl TypeError, s))"

text \<open>
  The handler of the documentation that reads the body of its request and goes on,
  \<^verbatim>\<open>
  async (request, next) => {
    const text = await request.text();
    return next();
  }
  \<close>
  and the one that passes the request it has read to its next handler,
  \<^verbatim>\<open>return next(request);\<close>
\<close>

definition reads_then_next :: "'u ChainableHandler" where
  "reads_then_next r next s =
     (case read_body r s of
        (Inl e, s') \<Rightarrow> (Inl e, s')
      | (Inr text, s') \<Rightarrow> next None s')"

definition reads_then_forwards :: "'u ChainableHandler" where
  "reads_then_forwards r next s =
     (case read_body r s of
        (Inl e, s') \<Rightarrow> (Inl e, s')
      | (Inr text, s') \<Rightarrow> next (Some r) s')"

text \<open>
  \<^verbatim>\<open>
  async () => {
    const response = new Response(body);
    await response.text();
    return response;
  }
  \<close>
\<close>

definition returns_read_response :: "string \<Rightarrow> 'u ChainableHandler" where
  "returns_read_response body r next s =
     (case new_Response (Some body) 200 s of
        (Inl e, s') \<Rightarrow> (Inl e, s')
      | (Inr x, s') \<Rightarrow>
          (case read_body x s' of
             (Inl e, s'') \<Rightarrow> (Inl e, s'')
           | (Inr text, s'') \<Rightarrow> (Inr x, s'')))"

text \<open>\<^verbatim>\<open>() => { throw msg; }\<close>\<close>

definition throws :: "string \<Rightarrow> 'u ChainableHandler" where
  "throws msg r next s = (Inl (Thrown msg), s)"

text \<open>
  \<^verbatim>\<open>
  async (_, next) => {
    try { return await next(); } catch { return new Response("recovered"); }
  }
  \<close>
\<close>

definition recovers :: "'u ChainableHandler" where
  "recovers r next s =
     (case next None s of
        (Inl e, s') \<Rightarrow> new_Response (Some ''recovered'') 200 s'
      | (Inr res, s') \<Rightarrow> (Inr res, s'))"

text \<open>
  \<^verbatim>\<open>
  (request) => {
    assertEquals(request.headers.get(name), expected);
    return nextHandler(request);     // the spy
  }
  \<close>
\<close>

definition asserts_header :: "string \<Rightarrow> string option \<Rightarrow> nat ChainableHandler" where
  "asserts_header name expected r next s =
     (if r < length (heap s) \<and> headers_get name (heap s ! r) = expected
      then spy_handler r next s
      else (Inl (Thrown ''AssertionError''), s))"

text \<open>A state with the request \<^verbatim>\<open>new Request("http://localhost")\<close> at reference 0 and
  the response \<^verbatim>\<open>new Response(null, { status: 400 })\<close> at reference 1.\<close>

definition s_init :: "nat state" where
  "s_init =
     \<lparr>heap = [RequestObj \<lparr>req_url = ''http://localhost'', req_method = ''GET'',
                            req_headers = [], req_body = None, req_bodyUsed = False\<rparr>,
              ResponseObj \<lparr>res_status = 400, res_headers = [], res_body = None,
                             res_bodyUsed = False\<rparr>],
      arrays = 0, user = 0\<rparr>"

text \<open>A state with a request that has a body, which has been read, at reference 0:
  \<^verbatim>\<open>new Request("http://localhost", { method: "POST", body: "data" })\<close> after
  \<^verbatim>\<open>await request.text()\<close>.\<close>

definition s_used_request :: "nat state" where
  "s_used_request =
     \<lparr>heap = [RequestObj \<lparr>req_url = ''http://localhost'', req_method = ''POST'',
                            req_headers = [(''content-type'', ''text/plain;charset=UTF-8'')],
                            req_body = Some ''data'', req_bodyUsed = True\<rparr>,
              ResponseObj \<lparr>res_status = 400, res_headers = [], res_body = None,
                             res_bodyUsed = False\<rparr>],
      arrays = 0, user = 0\<rparr>"

text \<open>A state with the request of \<open>s_init\<close> and, at reference 1, the response
  \<^verbatim>\<open>new Response("hello")\<close> after \<^verbatim>\<open>await response.text()\<close>.\<close>

definition s_used_fallback :: "nat state" where
  "s_used_fallback =
     \<lparr>heap = [RequestObj \<lparr>req_url = ''http://localhost'', req_method = ''GET'',
                            req_headers = [], req_body = None, req_bodyUsed = False\<rparr>,
              ResponseObj \<lparr>res_status = 200,
                             res_headers = [(''content-type'', ''text/plain;charset=UTF-8'')],
                             res_body = Some ''hello'', res_bodyUsed = True\<rparr>],
      arrays = 0, user = 0\<rparr>"

text \<open>A state with a request that has a body, not read, at reference 0.\<close>

definition s_post :: "nat state" where
  "s_post =
     \<lparr>heap = [RequestObj \<lparr>req_url = ''http://localhost'', req_method = ''POST'',
                            req_headers = [(''content-type'', ''text/plain;charset=UTF-8'')],
                            req_body = Some ''data'', req_bodyUsed = False\<rparr>,
              ResponseObj \<lparr>res_status = 400, res_headers = [], res_body = None,
                             res_bodyUsed = False\<rparr>],
      arrays = 0, user = 0\<rparr>"

definition store_init :: "'h store" where
  "store_init = \<lparr>handler_arrays = [], chains = []\<rparr>"

section \<open>Objects that can be duplicated, objects that are never destroyed\<close>

text \<open>A reference can be duplicated in a state when it is an object of the heap whose
  body is not unusable.\<close>

definition cloneable :: "'u state \<Rightarrow> ref \<Rightarrow> bool" where
  "cloneable s r = (r < length (heap s) \<and> \<not> unusable (heap s ! r))"

text \<open>
  No program of the language can destroy an object or reuse its identity. A handler of
  the model is any function on states, so this is said of the handlers: a computation
  keeps the objects when it leaves at least as many as it found, and a handler is well
  behaved when it keeps the objects provided its next handler does.
\<close>

definition keeps_objects :: "('a, 'u) comp \<Rightarrow> bool" where
  "keeps_objects m = (\<forall>s. length (heap s) \<le> length (heap (snd (m s))))"

definition well_behaved :: "'u ChainableHandler \<Rightarrow> bool" where
  "well_behaved h = (\<forall>r next. (\<forall>a. keeps_objects (next a)) \<longrightarrow> keeps_objects (h r next))"

text \<open>A handler that returns without a call of its next handler is a function that does
  not depend on it.\<close>

definition ignores_next :: "'u ChainableHandler \<Rightarrow> bool" where
  "ignores_next h = (\<forall>r next next'. h r next = h r next')"

section \<open>Unfolding the engine\<close>

declare run.simps [simp del]

lemma nextHandler_closure:
  "(\<lambda>nextRequest s.
       case clone (case nextRequest of None \<Rightarrow> request | Some r \<Rightarrow> r) s of
         (Inl e, s1) \<Rightarrow> (Inl e, s1)
       | (Inr rq, s1) \<Rightarrow>
           (case clone response s1 of
              (Inl e, s2) \<Rightarrow> (Inl e, s2)
            | (Inr rs, s2) \<Rightarrow> await_clone (run seen rest rq rs s2)))
   = nextHandler seen rest request response"
  by (intro ext) (simp add: nextHandler_def)


lemma run_Nil:
  "arrays s \<notin> set seen \<Longrightarrow>
   run seen [] request response s = clone response (s\<lparr>arrays := Suc (arrays s)\<rparr>)"
  by (subst run.simps) (simp add: new_array_def falsy_def)

lemma run_Falsy:
  "arrays s \<notin> set seen \<Longrightarrow>
   run seen (Falsy # rest) request response s = clone response (s\<lparr>arrays := Suc (arrays s)\<rparr>)"
  by (subst run.simps) (simp add: new_array_def falsy_def)

lemma run_Truthy:
  "arrays s \<notin> set seen \<Longrightarrow>
   run seen (Truthy # rest) request response s =
     (case clone request (s\<lparr>arrays := Suc (arrays s)\<rparr>) of
        (Inl e, s1) \<Rightarrow> (Inl e, s1)
      | (Inr r0, s1) \<Rightarrow> (Inl TypeError, s1))"
  by (subst run.simps) (simp add: new_array_def falsy_def split: prod.splits sum.splits)

lemma run_Callable:
  "arrays s \<notin> set seen \<Longrightarrow>
   run seen (Callable f # rest) request response s =
     (case clone request (s\<lparr>arrays := Suc (arrays s)\<rparr>) of
        (Inl e, s1) \<Rightarrow> (Inl e, s1)
      | (Inr r0, s1) \<Rightarrow> await_clone (f r0 (nextHandler seen rest request response) s1))"
  by (subst run.simps)
     (simp add: new_array_def falsy_def nextHandler_closure split: prod.splits sum.splits)


lemma chain_run:
  "chain request response handlers s =
     run [] handlers request response (s\<lparr>arrays := Suc (arrays s)\<rparr>)"
  by (simp add: chain_def new_array_def)

lemma clone_object:
  "r < length (heap s) \<Longrightarrow> \<not> unusable (heap s ! r) \<Longrightarrow>
   clone r s = (Inr (length (heap s)), s\<lparr>heap := heap s @ [heap s ! r]\<rparr>)"
  by (simp add: clone_def)

lemma clone_cloneable:
  "cloneable s r \<Longrightarrow> clone r s = (Inr (length (heap s)), s\<lparr>heap := heap s @ [heap s ! r]\<rparr>)"
  by (simp add: clone_def cloneable_def)

lemma clone_not_cloneable: "\<not> cloneable s r \<Longrightarrow> clone r s = (Inl TypeError, s)"
  by (auto simp: clone_def cloneable_def)


lemma cloneable_append [simp]:
  "cloneable (s\<lparr>heap := heap s @ xs\<rparr>) r
     = (if r < length (heap s) then cloneable s r
        else r < length (heap s) + length xs \<and> \<not> unusable (xs ! (r - length (heap s))))"
  by (auto simp: cloneable_def nth_append)

lemma cloneable_arrays [simp]: "cloneable (s\<lparr>arrays := n\<rparr>) r = cloneable s r"
  by (simp add: cloneable_def)

lemma cloneable_user [simp]: "cloneable (s\<lparr>user := u\<rparr>) r = cloneable s r"
  by (simp add: cloneable_def)

lemma await_clone_Inl [simp]: "await_clone (Inl e, s) = (Inl e, s)"
  by (simp add: await_clone_def)

lemma await_clone_Inr [simp]: "await_clone (Inr r, s) = clone r s"
  by (simp add: await_clone_def)

lemma nextHandler_Some:
  "cloneable s a \<Longrightarrow> cloneable s response \<Longrightarrow>
   nextHandler seen rest request response (Some a) s =
     await_clone (run seen rest (length (heap s)) (Suc (length (heap s)))
        (s\<lparr>heap := heap s @ [heap s ! a, heap s ! response]\<rparr>))"
  by (simp add: nextHandler_def clone_def cloneable_def nth_append)

lemma nextHandler_None:
  "cloneable s request \<Longrightarrow> cloneable s response \<Longrightarrow>
   nextHandler seen rest request response None s =
     await_clone (run seen rest (length (heap s)) (Suc (length (heap s)))
        (s\<lparr>heap := heap s @ [heap s ! request, heap s ! response]\<rparr>))"
  by (simp add: nextHandler_def clone_def cloneable_def nth_append)

section \<open>The engine keeps the objects\<close>

lemma clone_keeps: "length (heap s) \<le> length (heap (snd (clone r s)))"
  by (simp add: clone_def)







lemma respond_is_chain:
  assumes "Chain_handlers this st = Inr a" and "elements st a = Inr handlers"
    and "new_Request request s = (Inr nr, s1)" and "clone nr s1 = (Inr rq, s3)"
    and "clone fallback s3 = (Inr rs, s4)"
  shows "Chain_respond this st request (Some fallback) s = chain rq rs handlers s4"
  using assms by (simp add: Chain_respond_def)




lemma well_behaved_spy_handler: "well_behaved spy_handler"
  by (simp add: well_behaved_def keeps_objects_def spy_handler_def new_Response_def)

lemma well_behaved_throws: "well_behaved (throws msg)"
  by (simp add: well_behaved_def keeps_objects_def throws_def)

section \<open>The builder appends\<close>

lemma Chain_new_handlers:
  "\<exists>c st' a. Chain_new init st = (c, st') \<and> Chain_handlers c st' = Inr a
      \<and> elements st' a = Inr init"
  by (simp add: Chain_new_def Chain_handlers_def elements_def array_alloc_def nth_append)

lemma Chain_next_appends:
  assumes "Chain_handlers this st = Inr a" and "elements st a = Inr xs"
  shows "\<exists>st' a'. Chain_next this hs st = Inr (this, st')
           \<and> Chain_handlers this st' = Inr a' \<and> elements st' a' = Inr (xs @ hs)
           \<and> a' \<noteq> a
           \<and> (\<forall>b < length (handler_arrays st). elements st' b = elements st b)"
  using assms
  by (auto simp: Chain_next_def Chain_handlers_def elements_def array_alloc_def nth_append
      split: if_splits)

section \<open>Facts about the handlers and about \<open>respond\<close>\<close>

lemma justThrough_around: "justThrough = around (\<lambda>r t. t) (\<lambda>r x t. t)"
  by (intro ext) (simp add: justThrough_def around_def split: prod.splits sum.splits)

lemma ignores_next_respond_with: "ignores_next (respond_with body)"
  by (simp add: ignores_next_def respond_with_def fun_eq_iff)

lemma ignores_next_returns_read_response: "ignores_next (returns_read_response body)"
  by (simp add: ignores_next_def returns_read_response_def fun_eq_iff)

lemma respond_on_duplicates:
  assumes "Chain_handlers this st = Inr a" and "elements st a = Inr handlers"
    and "request < length (heap s)" and "heap s ! request = RequestObj c"
    and "\<not> unusable (RequestObj c)"
    and "response < length (heap s)" and "heap s ! response = ResponseObj fb"
    and "\<not> unusable (ResponseObj fb)"
  shows "Chain_respond this st request (Some response) s =
           chain (length (heap s) + 1) (length (heap s) + 2) handlers
             (s\<lparr>heap := (heap s)[request := mark_used (RequestObj c)]
                          @ [RequestObj c, RequestObj c, ResponseObj fb]\<rparr>)"
proof -
  have ne: "response \<noteq> request"
    using assms(4,7) by auto
  let ?s1 = "s\<lparr>heap := (heap s)[request := mark_used (RequestObj c)] @ [RequestObj c]\<rparr>"
  let ?s3 = "s\<lparr>heap := (heap s)[request := mark_used (RequestObj c)]
                         @ [RequestObj c, RequestObj c]\<rparr>"
  have n: "new_Request request s = (Inr (length (heap s)), ?s1)"
    using assms(3,4,5) by (simp add: new_Request_def)
  have c1: "clone (length (heap s)) ?s1 = (Inr (length (heap s) + 1), ?s3)"
    using assms(5) by (simp add: clone_def nth_append)
  have c2: "clone response ?s3
              = (Inr (length (heap s) + 2),
                 s\<lparr>heap := (heap s)[request := mark_used (RequestObj c)]
                              @ [RequestObj c, RequestObj c, ResponseObj fb]\<rparr>)"
    using assms(6,7,8) ne by (simp add: clone_def nth_append)
  from respond_is_chain [OF assms(1,2) n c1 c2] show ?thesis .
qed

lemma cloneable_extends:
  "cloneable s r \<Longrightarrow> heap s' = heap s @ ys \<Longrightarrow> cloneable s' r"
  by (simp add: cloneable_def nth_append)

lemma spy_tail_once:
  assumes "cloneable s request" and "cloneable s response"
  shows "\<exists>r s'. nextHandler [] (Callable spy_handler # rest) request response None s = (Inr r, s')
           \<and> user s' = Suc (user s) \<and> (\<exists>ys. heap s' = heap s @ ys) \<and> cloneable s' r"
  using assms
  by (simp add: nextHandler_def run_Callable clone_def cloneable_def unusable_def
      spy_handler_def new_Response_def nth_append)

lemma next_times_spy:
  assumes "cloneable s request" and "cloneable s response" and "cloneable s res"
  shows "\<exists>r s'. next_times k (nextHandler [] (Callable spy_handler # rest) request response) res s
                    = (Inr r, s')
           \<and> user s' = user s + k \<and> cloneable s' r"
  using assms
proof (induction k arbitrary: s res)
  case 0
  then show ?case by simp
next
  case (Suc k)
  from spy_tail_once [OF Suc.prems(1,2), of rest]
  obtain r1 s1 ys where
    step: "nextHandler [] (Callable spy_handler # rest) request response None s = (Inr r1, s1)"
    and u: "user s1 = Suc (user s)" and ext: "heap s1 = heap s @ ys"
    and r1: "cloneable s1 r1"
    by blast
  from Suc.prems ext have "cloneable s1 request" "cloneable s1 response"
    by (simp_all add: cloneable_extends)
  from Suc.IH [OF this r1]
  obtain r s' where
    "next_times k (nextHandler [] (Callable spy_handler # rest) request response) r1 s1
       = (Inr r, s')"
    "user s' = user s1 + k" "cloneable s' r"
    by blast
  with step u show ?case by simp
qed

section \<open>The claims\<close>

subsection \<open>C1: the guard against reentry\<close>

text \<open>
  Claim C1: within one call of \<open>chain\<close>, when the same tail sequence is met again
  (a handler calls its next handler more than once), the second evaluation returns a
  duplicate of the current response and invokes no handler, so that each tail is
  evaluated at most once.

  The code does not do this. \<open>seen\<close> is created empty and nothing is ever added to
  it, and the array that \<open>run\<close> tests is the array of its rest parameter, which is
  new at every call: \<^verbatim>\<open>seen.has(handlers)\<close> is false at every call. With the first
  handler calling its next handler twice, the spy behind it is called twice.
\<close>

theorem reentry_not_capped:
  "fst (chain 0 1 [Callable (calls_next 2), Callable spy_handler] s_init) = Inr 16
   \<and> user (snd (chain 0 1 [Callable (calls_next 2), Callable spy_handler] s_init)) = 2"
  by (simp add: chain_run run_Callable run_Nil clone_def calls_next_def new_Response_def
      s_init_def nextHandler_def spy_handler_def unusable_def eval_nat_numeral nth_append)

subsection \<open>C2: entries that are not callable\<close>

text \<open>
  Claim C2, as stated: a call whose handler sequence contains an entry that is not
  callable fails at once. It does not when the entry is falsy: \<^verbatim>\<open>if (!first)\<close>
  takes it for the end of the sequence, the call returns a duplicate of the response
  and the handlers behind the entry are not called.
\<close>

theorem falsy_entry_counterexample:
  "fst (chain 0 1 [Falsy, Callable spy_handler] s_init) = Inr 2
   \<and> user (snd (chain 0 1 [Falsy, Callable spy_handler] s_init)) = 0"
  by (simp add: chain_run run_Falsy clone_def unusable_def s_init_def)

text \<open>
  Claim C2, amended: when the entry at the head of the sequence that the engine
  evaluates is a truthy value that is not callable, the call fails with a
  \<^verbatim>\<open>TypeError\<close>; a falsy entry at the head ends the chain, the call returns what it
  returns for the empty sequence; the entries behind a handler that does not call its
  next handler are not examined; and \<open>next\<close> of the builder stores entries of any
  kind without a failure.
\<close>

theorem malformed_entries:
  "fst (chain request response (Truthy # rest) s) = Inl TypeError
   \<and> chain request response (Falsy # rest) s = chain request response [] s
   \<and> (ignores_next h \<longrightarrow>
        chain request response (Callable h # rest) s = chain request response [Callable h] s)
   \<and> (Chain_handlers this st = Inr a \<longrightarrow> elements st a = Inr xs \<longrightarrow>
        (\<exists>st' a'. Chain_next this [Truthy, Falsy] st = Inr (this, st')
            \<and> Chain_handlers this st' = Inr a' \<and> elements st' a' = Inr (xs @ [Truthy, Falsy])))"
proof -
  have "h r (nextHandler [] rest request response) = h r (nextHandler [] [] request response)"
    if "ignores_next h" for r
    using that unfolding ignores_next_def by blast
  moreover have "\<exists>st' a'. Chain_next this [Truthy, Falsy] st = Inr (this, st')
            \<and> Chain_handlers this st' = Inr a' \<and> elements st' a' = Inr (xs @ [Truthy, Falsy])"
    if "Chain_handlers this st = Inr a" and "elements st a = Inr xs"
    using Chain_next_appends [OF that, of "[Truthy, Falsy]"] by blast
  ultimately show ?thesis
    by (simp add: chain_run run_Truthy run_Falsy run_Nil run_Callable clone_def)
qed

theorem malformed_entries_witness:
  "(let st = snd (Chain_new ([] :: nat entry list) store_init)
    in ignores_next (respond_with ''test'' :: nat ChainableHandler)
     \<and> Chain_handlers 0 st = Inr 0 \<and> elements st 0 = Inr []
     \<and> fst (chain 0 1 [Truthy, Callable spy_handler] s_init) = Inl TypeError
     \<and> chain 0 1 [Falsy, Callable spy_handler] s_init = chain 0 1 [] s_init
     \<and> chain 0 1 [Callable (respond_with ''test''), Truthy] s_init
         = chain 0 1 [Callable (respond_with ''test'')] s_init
     \<and> (\<exists>st' a'. Chain_next 0 [Truthy, Falsy] st = Inr (0, st')
            \<and> Chain_handlers 0 st' = Inr a' \<and> elements st' a' = Inr [Truthy, Falsy]))"
proof -
  let ?st = "snd (Chain_new ([] :: nat entry list) store_init)"
  have i: "ignores_next (respond_with ''test'' :: nat ChainableHandler)"
    by (simp add: ignores_next_def respond_with_def fun_eq_iff)
  have h: "Chain_handlers 0 ?st = Inr 0" and e: "elements ?st 0 = Inr []"
    by (simp_all add: Chain_new_def Chain_handlers_def elements_def array_alloc_def
        store_init_def)
  from malformed_entries [of 0 1 "[Callable spy_handler]" s_init "respond_with ''test''"
      0 ?st 0 "[]"]
    malformed_entries [of 0 1 "[Truthy]" s_init "respond_with ''test''" 0 ?st 0 "[]"]
    i h e
  show ?thesis
    unfolding Let_def by simp
qed

subsection \<open>C3: the result is a new object\<close>




subsection \<open>C4: the default response\<close>

text \<open>
  Claim C4, as stated: for every request, \<open>respond\<close> without a fallback, on a builder
  whose handler sequence is empty, returns a response of status 404 with no body. It
  does not for a request whose body has been read: \<^verbatim>\<open>new Request(request)\<close> raises a
  \<^verbatim>\<open>TypeError\<close>, and so does \<open>respond\<close>.
\<close>

theorem used_request_counterexample:
  "Chain_respond 0 (snd (Chain_new ([] :: nat entry list) store_init)) 0 None s_used_request
     = (Inl TypeError, s_used_request)"
  by (simp add: Chain_respond_def new_Request_def unusable_def s_used_request_def)

text \<open>
  Claim C4, amended: for every request whose body is not unusable (it has none, or it
  has not been used), \<open>respond\<close> without a fallback, on a builder whose handler
  sequence is empty, returns a response of status 404 with no body and no headers, and
  the object returned is not the default that \<open>respond\<close> constructed: with \<open>n\<close>
  objects before the call, the default is object \<open>n + 1\<close> and the result is object
  \<open>n + 4\<close>. The request given is left with its body used when it has one. For a
  request whose body is unusable the call fails with a \<^verbatim>\<open>TypeError\<close> and changes
  nothing.
\<close>

theorem default_fallback:
  assumes "Chain_handlers this st = Inr a" and "elements st a = Inr []"
    and "request < length (heap s)" and "heap s ! request = RequestObj c"
  shows "(\<not> unusable (RequestObj c) \<longrightarrow>
           Chain_respond this st request None s =
             (Inr (length (heap s) + 4),
              s\<lparr>arrays := arrays s + 2,
                heap := (heap s)[request := mark_used (RequestObj c)] @
                  [RequestObj c,
                   ResponseObj \<lparr>res_status = 404, res_headers = [], res_body = None,
                                 res_bodyUsed = False\<rparr>,
                   RequestObj c,
                   ResponseObj \<lparr>res_status = 404, res_headers = [], res_body = None,
                                 res_bodyUsed = False\<rparr>,
                   ResponseObj \<lparr>res_status = 404, res_headers = [], res_body = None,
                                 res_bodyUsed = False\<rparr>]\<rparr>)
           \<and> fst (new_Response None 404 (snd (new_Request request s)))
               = Inr (length (heap s) + 1))
       \<and> (unusable (RequestObj c) \<longrightarrow>
           Chain_respond this st request None s = (Inl TypeError, s))"
  using assms
  by (simp add: Chain_respond_def new_Request_def new_Response_def clone_def unusable_def
      chain_run run_Nil nth_append eval_nat_numeral)

theorem default_fallback_witness:
  "(let st = snd (Chain_new ([] :: nat entry list) store_init);
        res = Chain_respond 0 st 0 None s_post
    in Chain_handlers 0 st = Inr 0 \<and> elements st 0 = Inr []
     \<and> 0 < length (heap s_post)
     \<and> \<not> unusable (heap s_post ! 0)
     \<and> fst res = Inr 6
     \<and> heap (snd res) ! 6 = ResponseObj \<lparr>res_status = 404, res_headers = [], res_body = None,
                                            res_bodyUsed = False\<rparr>
     \<and> heap (snd res) ! 0 = mark_used (heap s_post ! 0)
     \<and> unusable (heap (snd res) ! 0)
     \<and> fst (new_Response None 404 (snd (new_Request 0 s_post))) = Inr 3
     \<and> unusable (heap s_used_request ! 0)
     \<and> fst (Chain_respond 0 st 0 None s_used_request) = Inl TypeError)"
proof -
  let ?st = "snd (Chain_new ([] :: nat entry list) store_init)"
  have h: "Chain_handlers 0 ?st = Inr 0" and e: "elements ?st 0 = Inr []"
    by (simp_all add: Chain_new_def Chain_handlers_def elements_def array_alloc_def
        store_init_def)
  have r: "0 < length (heap s_post)"
    and c: "heap s_post ! 0 = RequestObj
              \<lparr>req_url = ''http://localhost'', req_method = ''POST'',
                 req_headers = [(''content-type'', ''text/plain;charset=UTF-8'')],
                 req_body = Some ''data'', req_bodyUsed = False\<rparr>"
    by (simp_all add: s_post_def)
  have r': "0 < length (heap s_used_request)"
    and c': "heap s_used_request ! 0 = RequestObj
              \<lparr>req_url = ''http://localhost'', req_method = ''POST'',
                 req_headers = [(''content-type'', ''text/plain;charset=UTF-8'')],
                 req_body = Some ''data'', req_bodyUsed = True\<rparr>"
    by (simp_all add: s_used_request_def)
  from default_fallback [OF h e r c] default_fallback [OF h e r' c'] h e r c c'
  show ?thesis
    by (simp add: Let_def s_post_def unusable_def mark_used_def)
qed

subsection \<open>C5: forwarding the request\<close>

text \<open>
  Claim C5, as stated: in a sequence of two handlers, when the first changes the
  request object it received and passes it to its next handler, the second handler
  receives a request that shows the change. It does not when the change is a read of
  the body: the duplication of the request that was read raises a \<^verbatim>\<open>TypeError\<close>,
  the call fails and the second handler is not invoked. With no argument to the next
  handler the same first handler does reach the second one.
\<close>

theorem read_request_counterexample:
  "fst (chain 0 1 [Callable reads_then_forwards, Callable spy_handler] s_post) = Inl TypeError
   \<and> user (snd (chain 0 1 [Callable reads_then_forwards, Callable spy_handler] s_post)) = 0
   \<and> fst (chain 0 1 [Callable reads_then_next, Callable spy_handler] s_post) = Inr 9
   \<and> user (snd (chain 0 1 [Callable reads_then_next, Callable spy_handler] s_post)) = 1"
  by (simp add: chain_run run_Callable run_Nil clone_def nextHandler_def reads_then_forwards_def
      reads_then_next_def read_body_def body_of_def spy_handler_def new_Response_def
      unusable_def mark_used_def s_post_def nth_append)

text \<open>
  Claim C5, amended: in a sequence of two handlers, for a request and a fallback that
  can be duplicated, when the first handler changes the request object it received
  (object \<open>n\<close>, by any change \<open>f\<close>, also a read of its body) and calls its next
  handler with no argument, the second handler receives a request (object \<open>n + 3\<close>)
  whose content is that of the original request; when the first passes the changed
  object to its next handler and the body of that object is not unusable, the second
  receives a request with the changed content, which is a duplicate and not the
  object \<open>n\<close> itself; when the change has left the body unusable, the call fails with
  a \<^verbatim>\<open>TypeError\<close> and the second handler is not invoked. The second handler is any
  handler \<open>h1\<close>; the three duplications of its result are those of \<open>run\<close>, of the
  next handler and of \<open>run\<close> again.
\<close>

theorem request_forwarding:
  assumes "cloneable s request" and "cloneable s response"
  shows "(let n = length (heap s);
              original = heap s ! request;
              s1 = s\<lparr>arrays := arrays s + 3,
                     heap := heap s @ [f original, original, heap s ! response, original]\<rparr>;
              s2 = s\<lparr>arrays := arrays s + 3,
                     heap := heap s @ [f original, f original, heap s ! response, f original]\<rparr>
          in chain request response
               [Callable (\<lambda>r next t. next None (mutate r f t)), Callable h1] s
             = await_clone (await_clone (await_clone
                 (h1 (n + 3) (nextHandler [] [] (n + 1) (n + 2)) s1)))
           \<and> heap s1 ! n = f original \<and> heap s1 ! (n + 3) = original
           \<and> (\<not> unusable (f original) \<longrightarrow>
                chain request response
                  [Callable (\<lambda>r next t. next (Some r) (mutate r f t)), Callable h1] s
                = await_clone (await_clone (await_clone
                    (h1 (n + 3) (nextHandler [] [] (n + 1) (n + 2)) s2)))
                \<and> heap s2 ! n = f original \<and> heap s2 ! (n + 3) = f original \<and> n + 3 \<noteq> n)
           \<and> (unusable (f original) \<longrightarrow>
                chain request response
                  [Callable (\<lambda>r next t. next (Some r) (mutate r f t)), Callable h1] s
                = (Inl TypeError, s\<lparr>arrays := arrays s + 2, heap := heap s @ [f original]\<rparr>)))"
  using assms
  by (simp add: chain_run run_Callable clone_def cloneable_def nextHandler_def
      nth_append eval_nat_numeral mutate_def Let_def)

theorem request_forwarding_witness:
  "cloneable s_init 0 \<and> cloneable s_init 1
   \<and> \<not> unusable (headers_append ''Server'' ''deno'' (heap s_init ! 0))
   \<and> fst (chain 0 1
       [Callable (\<lambda>r next t. next None (mutate r (headers_append ''Server'' ''deno'') t)),
        Callable (asserts_header ''server'' None)] s_init) = Inr 9
   \<and> fst (chain 0 1
       [Callable (\<lambda>r next t. next (Some r) (mutate r (headers_append ''Server'' ''deno'') t)),
        Callable (asserts_header ''server'' (Some ''deno''))] s_init) = Inr 9
   \<and> fst (chain 0 1
       [Callable (\<lambda>r next t. next (Some r) (mutate r (headers_append ''Server'' ''deno'') t)),
        Callable (asserts_header ''server'' None)] s_init) = Inl (Thrown ''AssertionError'')
   \<and> cloneable s_post 0 \<and> cloneable s_post 1 \<and> unusable (mark_used (heap s_post ! 0))
   \<and> fst (chain 0 1
       [Callable (\<lambda>r next t. next None (mutate r mark_used t)), Callable spy_handler] s_post)
      = Inr 9
   \<and> fst (chain 0 1
       [Callable (\<lambda>r next t. next (Some r) (mutate r mark_used t)), Callable spy_handler] s_post)
      = Inl TypeError"
proof -
  have r: "cloneable s_init 0" and p: "cloneable s_init 1"
    and r': "cloneable s_post 0" and p': "cloneable s_post 1"
    by (simp_all add: cloneable_def unusable_def s_init_def s_post_def)
  have st: "strip ''deno'' = ''deno''"
    by (simp add: strip_def http_space_def)
  from request_forwarding [OF r p, of "headers_append ''Server'' ''deno''"
      "asserts_header ''server'' None"]
    request_forwarding [OF r p, of "headers_append ''Server'' ''deno''"
      "asserts_header ''server'' (Some ''deno'')"]
    request_forwarding [OF r' p', of mark_used spy_handler]
  show ?thesis
    by (simp add: Let_def s_init_def s_post_def asserts_header_def headers_get_def
        headers_append_def headers_of_def lower_char_def st spy_handler_def new_Response_def clone_def
        unusable_def mark_used_def cloneable_def nth_append)
qed

subsection \<open>C6: delegation\<close>

text \<open>
  Claim C6, as stated: in a sequence of two handlers whose first handler calls its
  next handler once, with no argument, and returns the awaited result as it is, the
  second handler is invoked exactly once. It is not when the body of the fallback
  response has been read: the next handler duplicates the fallback before it evaluates
  the rest of the sequence, the duplication raises a \<^verbatim>\<open>TypeError\<close>, and the second
  handler is not invoked.
\<close>

theorem used_fallback_counterexample:
  "fst (chain 0 1 [Callable justThrough, Callable spy_handler] s_used_fallback) = Inl TypeError
   \<and> user (snd (chain 0 1 [Callable justThrough, Callable spy_handler] s_used_fallback)) = 0"
  by (simp add: chain_run run_Callable clone_def nextHandler_def justThrough_def
      unusable_def s_used_fallback_def nth_append)

text \<open>
  Claim C6, amended: in a sequence of two handlers whose first handler calls its next
  handler once, with no argument, and returns the awaited result as it is, whatever it
  does before the call (\<open>before\<close>) and after it (\<open>after\<close>): when the request can be
  duplicated at the call of \<open>chain\<close>, and the request and the fallback can be
  duplicated at the call of the next handler, the second handler \<open>h1\<close> is invoked
  exactly once, on a duplicate of the request (the evaluation is that one invocation,
  two duplications of its result, \<open>after\<close>, and a last duplication); when moreover
  \<open>h1\<close> returns a response that can be duplicated and \<open>after\<close> leaves the response it
  is given as it is, the final response is a new object with the content of the
  response that \<open>h1\<close> returned. When one of the duplications of the request or of the
  fallback is not possible the evaluation fails with a \<^verbatim>\<open>TypeError\<close> and \<open>h1\<close> is
  not invoked.
\<close>

theorem delegation:
  "(let n = length (heap s);
        s0 = s\<lparr>arrays := arrays s + 2, heap := heap s @ [heap s ! request]\<rparr>;
        s1 = before n s0;
        m = length (heap s1);
        s2 = s1\<lparr>arrays := arrays s1 + 1,
                heap := heap s1 @ [heap s1 ! request, heap s1 ! response, heap s1 ! request]\<rparr>;
        call = h1 (m + 2) (nextHandler [] [] m (m + 1)) s2;
        result = chain request response [Callable (around before after), Callable h1] s
    in (\<not> cloneable s request \<longrightarrow> result = (Inl TypeError, s\<lparr>arrays := arrays s + 2\<rparr>))
     \<and> (cloneable s request \<longrightarrow> \<not> cloneable s1 request \<longrightarrow> result = (Inl TypeError, s1))
     \<and> (cloneable s request \<longrightarrow> cloneable s1 request \<longrightarrow>
          response < m \<longrightarrow> unusable (heap s1 ! response) \<longrightarrow>
          result = (Inl TypeError, s1\<lparr>heap := heap s1 @ [heap s1 ! request]\<rparr>))
     \<and> (cloneable s request \<longrightarrow> cloneable s1 request \<longrightarrow> cloneable s1 response \<longrightarrow>
          result = (case await_clone (await_clone call) of
                      (Inl e, t) \<Rightarrow> (Inl e, t)
                    | (Inr x, t) \<Rightarrow> clone x (after n x t))
          \<and> (\<forall>res t2. call = (Inr res, t2) \<longrightarrow> cloneable t2 res \<longrightarrow>
                (let returned = heap t2 ! res;
                     x = length (heap t2) + 1;
                     t3 = after n x (t2\<lparr>heap := heap t2 @ [returned, returned]\<rparr>)
                 in x < length (heap t3) \<longrightarrow> heap t3 ! x = returned \<longrightarrow>
                    result = (Inr (length (heap t3)), t3\<lparr>heap := heap t3 @ [returned]\<rparr>)
                    \<and> res < length (heap t3)))))"
proof -
  define n where "n = length (heap s)"
  define s0 where "s0 = s\<lparr>arrays := arrays s + 2, heap := heap s @ [heap s ! request]\<rparr>"
  define s1 where "s1 = before n s0"
  define m where "m = length (heap s1)"
  define s2 where "s2 = s1\<lparr>arrays := arrays s1 + 1,
                heap := heap s1 @ [heap s1 ! request, heap s1 ! response, heap s1 ! request]\<rparr>"
  define call where "call = h1 (m + 2) (nextHandler [] [] m (m + 1)) s2"
  define result where
    "result = chain request response [Callable (around before after), Callable h1] s"
  have a: "result = (Inl TypeError, s\<lparr>arrays := arrays s + 2\<rparr>)" if "\<not> cloneable s request"
    using that unfolding result_def
    by (simp add: chain_run run_Callable clone_not_cloneable)
  have start: "result = await_clone (around before after n (nextHandler [] [Callable h1] request response) s0)"
    if "cloneable s request"
    using that unfolding result_def s0_def n_def
    by (simp add: chain_run run_Callable clone_cloneable)
  have b: "result = (Inl TypeError, s1)" if "cloneable s request" "\<not> cloneable s1 request"
    using that(2) unfolding start [OF that(1)] s1_def
    by (simp add: around_def nextHandler_def clone_not_cloneable)
  have c: "result = (Inl TypeError, s1\<lparr>heap := heap s1 @ [heap s1 ! request]\<rparr>)"
    if "cloneable s request" "cloneable s1 request" "response < m" "unusable (heap s1 ! response)"
    using that(2-) unfolding start [OF that(1)] s1_def m_def
    by (simp add: around_def nextHandler_def clone_def cloneable_def nth_append)
  have nx: "nextHandler [] [Callable h1] request response None s1 = await_clone (await_clone call)"
    if "cloneable s1 request" "cloneable s1 response"
    using that unfolding call_def s2_def m_def
    by (simp add: nextHandler_None run_Callable clone_def cloneable_def nth_append
        eval_nat_numeral)
  have d: "result = (case await_clone (await_clone call) of
                      (Inl e, t) \<Rightarrow> (Inl e, t)
                    | (Inr x, t) \<Rightarrow> clone x (after n x t))"
    if "cloneable s request" "cloneable s1 request" "cloneable s1 response"
    unfolding start [OF that(1)] around_def
    using nx [OF that(2,3)] unfolding s1_def
    by (simp split: prod.splits sum.splits)
  have e: "result = (Inr (length (heap t3)), t3\<lparr>heap := heap t3 @ [heap t2 ! res]\<rparr>)
           \<and> res < length (heap t3)"
    if "cloneable s request" "cloneable s1 request" "cloneable s1 response"
      and "call = (Inr res, t2)" "cloneable t2 res"
      and "t3 = after n (length (heap t2) + 1) (t2\<lparr>heap := heap t2 @ [heap t2 ! res, heap t2 ! res]\<rparr>)"
      and "length (heap t2) + 1 < length (heap t3)"
      and "heap t3 ! (length (heap t2) + 1) = heap t2 ! res"
    for res t2 t3
  proof -
    from that(5) have "await_clone (await_clone call)
        = (Inr (length (heap t2) + 1), t2\<lparr>heap := heap t2 @ [heap t2 ! res, heap t2 ! res]\<rparr>)"
      unfolding that(4) by (simp add: clone_def cloneable_def nth_append)
    with d [OF that(1-3)] have "result = clone (length (heap t2) + 1) t3"
      by (simp add: that(6))
    moreover from that(5) have "\<not> unusable (heap t2 ! res)" "res < length (heap t2)"
      by (simp_all add: cloneable_def)
    ultimately show ?thesis
      using that(7,8) by (simp add: clone_def)
  qed
  show ?thesis
    using a b c d e
    unfolding Let_def n_def [symmetric] s0_def [symmetric] s1_def [symmetric] m_def [symmetric]
      s2_def [symmetric] call_def [symmetric] result_def [symmetric]
    by blast
qed

theorem delegation_witness:
  "(let before = (\<lambda>r t. t\<lparr>user := user t + 10\<rparr>) :: ref \<Rightarrow> nat state \<Rightarrow> nat state;
        after = (\<lambda>r x t. t\<lparr>user := user t + 100\<rparr>) :: ref \<Rightarrow> ref \<Rightarrow> nat state \<Rightarrow> nat state;
        s0 = s_init\<lparr>arrays := 2, heap := heap s_init @ [heap s_init ! 0]\<rparr>;
        result = chain 0 1 [Callable (around before after), Callable spy_handler] s_init
    in cloneable s_init 0 \<and> cloneable (before 2 s0) 0 \<and> cloneable (before 2 s0) 1
     \<and> fst result = Inr 9 \<and> user (snd result) = 111
     \<and> heap (snd result) ! 9
         = ResponseObj \<lparr>res_status = 200, res_headers = [], res_body = None, res_bodyUsed = False\<rparr>
     \<and> fst (chain 0 1 [Callable (around before after), Callable spy_handler] s_used_request)
         = Inl TypeError
     \<and> fst (chain 0 1 [Callable (around (\<lambda>r. mutate 0 mark_used) after), Callable spy_handler] s_post)
         = Inl TypeError
     \<and> fst (chain 0 1 [Callable (around before after), Callable spy_handler] s_used_fallback)
         = Inl TypeError)"
  using delegation [of s_init 0 "\<lambda>r t. t\<lparr>user := user t + 10\<rparr>" 1 spy_handler
      "\<lambda>r x t. t\<lparr>user := user t + 100\<rparr>"]
    delegation [of s_used_request 0 "\<lambda>r t. t\<lparr>user := user t + 10\<rparr>" 1 spy_handler
      "\<lambda>r x t. t\<lparr>user := user t + 100\<rparr>"]
    delegation [of s_post 0 "\<lambda>r. mutate 0 mark_used" 1 spy_handler
      "\<lambda>r x t. t\<lparr>user := user t + 100\<rparr>"]
    delegation [of s_used_fallback 0 "\<lambda>r t. t\<lparr>user := user t + 10\<rparr>" 1 spy_handler
      "\<lambda>r x t. t\<lparr>user := user t + 100\<rparr>"]
  by (simp add: Let_def s_init_def s_used_request_def s_post_def s_used_fallback_def
      spy_handler_def new_Response_def clone_def cloneable_def unusable_def mutate_def
      mark_used_def nth_append)

subsection \<open>C7: short circuit\<close>

text \<open>
  Claim C7, as stated: in a sequence of two handlers whose first handler \<open>h0\<close> returns
  a response without a call of its next handler, the content of the final response is
  the content of the response that \<open>h0\<close> returned. There is no final response when
  \<open>h0\<close> returns a response whose body it has read: \<open>h0\<close> returns the response (the
  object 3), the duplication of it by \<open>run\<close> raises a \<^verbatim>\<open>TypeError\<close>, and the call
  of \<open>chain\<close> fails.
\<close>

theorem read_response_counterexample:
  "fst (returns_read_response ''test'' 2 (nextHandler [] [Callable spy_handler] 0 1)
         (s_init\<lparr>arrays := 2, heap := heap s_init @ [heap s_init ! 0]\<rparr>)) = Inr 3
   \<and> fst (chain 0 1 [Callable (returns_read_response ''test''), Callable spy_handler] s_init)
       = Inl TypeError"
  by (simp add: chain_run run_Callable clone_def returns_read_response_def read_body_def
      body_of_def new_Response_def unusable_def mark_used_def s_init_def nth_append)

text \<open>
  Claim C7, amended: in a sequence of two handlers whose first handler \<open>h0\<close> returns
  without a call of its next handler, the second handler is invoked zero times: the
  evaluation is the one with \<open>h0\<close> alone, whatever the second handler \<open>h1\<close> is.
  When the request cannot be duplicated the evaluation fails with a \<^verbatim>\<open>TypeError\<close>
  before \<open>h0\<close> is invoked. Otherwise it is the invocation of \<open>h0\<close> on a duplicate of
  the request and a duplication of its result: when \<open>h0\<close> returns a response that can
  be duplicated, the final response is a new object with the content of the response
  that \<open>h0\<close> returned; when \<open>h0\<close> returns a response whose body has been read, or a
  value that is no object, the evaluation fails with a \<^verbatim>\<open>TypeError\<close>.
\<close>

theorem short_circuit:
  assumes "ignores_next h0"
  shows "(let call = h0 (length (heap s)) next
                       (s\<lparr>arrays := arrays s + 2, heap := heap s @ [heap s ! request]\<rparr>);
              result = chain request response [Callable h0, Callable h1] s
          in result = chain request response [Callable h0] s
           \<and> (\<not> cloneable s request \<longrightarrow> result = (Inl TypeError, s\<lparr>arrays := arrays s + 2\<rparr>))
           \<and> (cloneable s request \<longrightarrow>
                result = await_clone call
                \<and> (\<forall>res s2. call = (Inr res, s2) \<longrightarrow>
                      (cloneable s2 res \<longrightarrow>
                         result = (Inr (length (heap s2)), s2\<lparr>heap := heap s2 @ [heap s2 ! res]\<rparr>)
                         \<and> res < length (heap s2))
                    \<and> (\<not> cloneable s2 res \<longrightarrow> result = (Inl TypeError, s2)))))"
proof -
  define s0 where "s0 = s\<lparr>arrays := arrays s + 2, heap := heap s @ [heap s ! request]\<rparr>"
  define call where "call = h0 (length (heap s)) next s0"
  define result where "result = chain request response [Callable h0, Callable h1] s"
  have same: "h0 r (nextHandler [] rest request response) = h0 r next" for r rest
    using assms unfolding ignores_next_def by blast
  have alone: "result = chain request response [Callable h0] s"
    unfolding result_def
    by (simp add: chain_run run_Callable same split: prod.splits sum.splits)
  have a: "result = (Inl TypeError, s\<lparr>arrays := arrays s + 2\<rparr>)" if "\<not> cloneable s request"
    using that unfolding result_def
    by (simp add: chain_run run_Callable clone_not_cloneable)
  have eq: "result = await_clone call" if "cloneable s request"
    using that unfolding result_def call_def s0_def
    by (simp add: chain_run run_Callable clone_cloneable same)
  have b: "result = (Inr (length (heap s2)), s2\<lparr>heap := heap s2 @ [heap s2 ! res]\<rparr>)
           \<and> res < length (heap s2)"
    if "cloneable s request" "call = (Inr res, s2)" "cloneable s2 res" for res s2
    using that(3) unfolding eq [OF that(1)] that(2)
    by (simp add: clone_cloneable) (simp add: cloneable_def)
  have c: "result = (Inl TypeError, s2)"
    if "cloneable s request" "call = (Inr res, s2)" "\<not> cloneable s2 res" for res s2
    using that(3) unfolding eq [OF that(1)] that(2)
    by (simp add: clone_not_cloneable)
  show ?thesis
    using alone a eq b c
    unfolding Let_def s0_def [symmetric] call_def [symmetric] result_def [symmetric]
    by blast
qed

theorem short_circuit_witness:
  "ignores_next (respond_with ''test'' :: nat ChainableHandler)
   \<and> ignores_next (returns_read_response ''test'' :: nat ChainableHandler)
   \<and> cloneable s_init 0 \<and> \<not> cloneable s_used_request 0
   \<and> fst (chain 0 1 [Callable (respond_with ''test''), Callable spy_handler] s_init) = Inr 4
   \<and> user (snd (chain 0 1 [Callable (respond_with ''test''), Callable spy_handler] s_init)) = 0
   \<and> heap (snd (chain 0 1 [Callable (respond_with ''test''), Callable spy_handler] s_init)) ! 4
       = ResponseObj \<lparr>res_status = 200,
           res_headers = [(''content-type'', ''text/plain;charset=UTF-8'')],
           res_body = Some ''test'', res_bodyUsed = False\<rparr>
   \<and> fst (chain 0 1 [Callable (returns_read_response ''test''), Callable spy_handler] s_init)
       = fst (chain 0 1 [Callable (returns_read_response ''test'')] s_init)
   \<and> fst (chain 0 1 [Callable (respond_with ''test''), Callable spy_handler] s_used_request)
       = Inl TypeError"
proof -
  have c: "cloneable s_init 0" and u: "\<not> cloneable s_used_request 0"
    by (simp_all add: cloneable_def unusable_def s_init_def s_used_request_def)
  from short_circuit [where ?h0.0 = "respond_with ''test''" and s = s_init and request = 0
      and response = 1 and ?h1.0 = spy_handler and ?next = "\<lambda>_. Pair (Inl TypeError)",
      OF ignores_next_respond_with] c
  have 1: "chain 0 1 [Callable (respond_with ''test''), Callable spy_handler] s_init
          = await_clone (respond_with ''test'' (length (heap s_init)) (\<lambda>_. Pair (Inl TypeError))
              (s_init\<lparr>arrays := arrays s_init + 2, heap := heap s_init @ [heap s_init ! 0]\<rparr>))"
    unfolding Let_def by blast
  from short_circuit [where ?h0.0 = "returns_read_response ''test''" and s = s_init
      and request = 0 and response = 1 and ?h1.0 = spy_handler
      and ?next = "\<lambda>_. Pair (Inl TypeError)", OF ignores_next_returns_read_response]
  have 2: "chain 0 1 [Callable (returns_read_response ''test''), Callable spy_handler] s_init
          = chain 0 1 [Callable (returns_read_response ''test'')] s_init"
    unfolding Let_def by blast
  from short_circuit [where ?h0.0 = "respond_with ''test''" and s = s_used_request
      and request = 0 and response = 1 and ?h1.0 = spy_handler
      and ?next = "\<lambda>_. Pair (Inl TypeError)", OF ignores_next_respond_with] u
  have 3: "chain 0 1 [Callable (respond_with ''test''), Callable spy_handler] s_used_request
          = (Inl TypeError, s_used_request\<lparr>arrays := arrays s_used_request + 2\<rparr>)"
    unfolding Let_def by blast
  show ?thesis
    unfolding 1 2 3
    using c u ignores_next_respond_with [of "''test''", where ?'a = nat]
      ignores_next_returns_read_response [of "''test''", where ?'a = nat]
    by (simp add: s_init_def respond_with_def new_Response_def clone_def unusable_def nth_append)
qed

subsection \<open>C8: a failing handler\<close>

text \<open>
  Claim C8, as stated: a failure of any handler of the sequence reaches the caller of
  \<open>chain\<close> unchanged. It does not when a handler before the failing one catches what
  its next handler throws: the second handler throws, the first one catches it and
  returns a response, and the call returns a duplicate of that response. The same
  failing handler at the head of the sequence does reach the caller.
\<close>

theorem caught_failure_counterexample:
  "fst (chain 0 1 [Callable recovers, Callable (throws ''boom'')] s_init) = Inr 7
   \<and> fst (chain 0 1 [Callable (throws ''boom'')] s_init) = Inl (Thrown ''boom'')"
  by (simp add: chain_run run_Callable clone_def nextHandler_def recovers_def throws_def
      new_Response_def unusable_def s_init_def nth_append)

text \<open>
  Claim C8, amended: the engine passes a failure on unchanged and does nothing more.
  When the request can be duplicated, a failure of the handler at the head of the
  sequence is the outcome of \<open>chain\<close>, in the state in which the handler failed: no
  retry, no fallback response, no response made of the failure. When the duplications
  of request and fallback by the next handler succeed, a failure of the evaluation of
  the tail is the outcome of the next handler that started it, and so reaches the
  handler that called it, which decides what becomes of it. For a request and a
  fallback response whose bodies are not unusable, the outcome of \<open>respond\<close> is the
  outcome of \<open>chain\<close> on the duplicates of request and fallback.
\<close>

theorem failure_propagates:
  "(cloneable s request \<longrightarrow>
      f (length (heap s)) (nextHandler [] rest request response)
        (s\<lparr>arrays := arrays s + 2, heap := heap s @ [heap s ! request]\<rparr>) = (Inl e, s2) \<longrightarrow>
      chain request response (Callable f # rest) s = (Inl e, s2))
   \<and> (clone (case nextRequest of None \<Rightarrow> request | Some r \<Rightarrow> r) t = (Inr rq, t1) \<longrightarrow>
      clone response t1 = (Inr rs, t2) \<longrightarrow>
      run seen rest rq rs t2 = (Inl e, t3) \<longrightarrow>
      nextHandler seen rest request response nextRequest t = (Inl e, t3))
   \<and> (Chain_handlers this st = Inr a \<longrightarrow> elements st a = Inr handlers \<longrightarrow>
      request < length (heap s) \<longrightarrow> heap s ! request = RequestObj c \<longrightarrow>
      \<not> unusable (RequestObj c) \<longrightarrow>
      response < length (heap s) \<longrightarrow> heap s ! response = ResponseObj fb \<longrightarrow>
      \<not> unusable (ResponseObj fb) \<longrightarrow>
      Chain_respond this st request (Some response) s =
        chain (length (heap s) + 1) (length (heap s) + 2) handlers
          (s\<lparr>heap := (heap s)[request := mark_used (RequestObj c)]
                       @ [RequestObj c, RequestObj c, ResponseObj fb]\<rparr>))"
proof (intro conjI impI)
  assume "cloneable s request"
    and "f (length (heap s)) (nextHandler [] rest request response)
           (s\<lparr>arrays := arrays s + 2, heap := heap s @ [heap s ! request]\<rparr>) = (Inl e, s2)"
  then show "chain request response (Callable f # rest) s = (Inl e, s2)"
    by (simp add: chain_run run_Callable clone_cloneable eval_nat_numeral)
next
  assume "clone (case nextRequest of None \<Rightarrow> request | Some r \<Rightarrow> r) t = (Inr rq, t1)"
    and "clone response t1 = (Inr rs, t2)"
    and "run seen rest rq rs t2 = (Inl e, t3)"
  then show "nextHandler seen rest request response nextRequest t = (Inl e, t3)"
    by (simp add: nextHandler_def)
next
  assume "Chain_handlers this st = Inr a" and "elements st a = Inr handlers"
    and "request < length (heap s)" and "heap s ! request = RequestObj c"
    and "\<not> unusable (RequestObj c)"
    and "response < length (heap s)" and "heap s ! response = ResponseObj fb"
    and "\<not> unusable (ResponseObj fb)"
  then show "Chain_respond this st request (Some response) s =
        chain (length (heap s) + 1) (length (heap s) + 2) handlers
          (s\<lparr>heap := (heap s)[request := mark_used (RequestObj c)]
                       @ [RequestObj c, RequestObj c, ResponseObj fb]\<rparr>)"
    by (rule respond_on_duplicates)
qed

theorem failure_propagates_witness:
  "(let st = snd (Chain_new [Callable (throws ''boom''), Callable spy_handler] store_init)
    in cloneable s_init 0 \<and> 0 < length (heap s_init) \<and> 1 < length (heap s_init)
     \<and> \<not> unusable (heap s_init ! 0) \<and> \<not> unusable (heap s_init ! 1)
     \<and> chain 0 1 [Callable (throws ''boom''), Callable spy_handler] s_init
        = (Inl (Thrown ''boom''),
           s_init\<lparr>arrays := arrays s_init + 2, heap := heap s_init @ [heap s_init ! 0]\<rparr>)
     \<and> clone 0 s_init = (Inr 2, s_init\<lparr>heap := heap s_init @ [heap s_init ! 0]\<rparr>)
     \<and> clone 1 (s_init\<lparr>heap := heap s_init @ [heap s_init ! 0]\<rparr>)
        = (Inr 3, s_init\<lparr>heap := heap s_init @ [heap s_init ! 0, heap s_init ! 1]\<rparr>)
     \<and> nextHandler [] [Callable (throws ''boom'')] 0 1 None s_init
        = (Inl (Thrown ''boom''),
           s_init\<lparr>arrays := 1,
                  heap := heap s_init @ [heap s_init ! 0, heap s_init ! 1, heap s_init ! 0]\<rparr>)
     \<and> Chain_handlers 0 st = Inr 0
     \<and> elements st 0 = Inr [Callable (throws ''boom''), Callable spy_handler]
     \<and> fst (Chain_respond 0 st 0 (Some 1) s_init) = Inl (Thrown ''boom'')
     \<and> user (snd (Chain_respond 0 st 0 (Some 1) s_init)) = 0)"
proof -
  let ?hs = "[Callable (throws ''boom''), Callable spy_handler]"
  let ?st = "snd (Chain_new ?hs store_init)"
  let ?c = "\<lparr>req_url = ''http://localhost'', req_method = ''GET'',
              req_headers = [], req_body = None, req_bodyUsed = False\<rparr>"
  let ?fb = "\<lparr>res_status = 400, res_headers = [], res_body = None, res_bodyUsed = False\<rparr>"
  have cl: "cloneable s_init 0"
    by (simp add: cloneable_def unusable_def s_init_def)
  have r: "0 < length (heap s_init)" and p: "1 < length (heap s_init)"
    and c: "heap s_init ! 0 = RequestObj ?c" and fb: "heap s_init ! 1 = ResponseObj ?fb"
    and u: "\<not> unusable (RequestObj ?c)" and u': "\<not> unusable (ResponseObj ?fb)"
    by (simp_all add: s_init_def unusable_def)
  have h: "throws ''boom'' (length (heap s_init)) (nextHandler [] [Callable spy_handler] 0 1)
             (s_init\<lparr>arrays := arrays s_init + 2, heap := heap s_init @ [heap s_init ! 0]\<rparr>)
           = (Inl (Thrown ''boom''),
              s_init\<lparr>arrays := arrays s_init + 2, heap := heap s_init @ [heap s_init ! 0]\<rparr>)"
    by (simp add: throws_def)
  have c1: "clone (case None of None \<Rightarrow> 0 | Some r \<Rightarrow> r) s_init
              = (Inr 2, s_init\<lparr>heap := heap s_init @ [heap s_init ! 0]\<rparr>)"
    by (simp add: clone_def unusable_def s_init_def)
  have c2: "clone 1 (s_init\<lparr>heap := heap s_init @ [heap s_init ! 0]\<rparr>)
      = (Inr 3, s_init\<lparr>heap := heap s_init @ [heap s_init ! 0, heap s_init ! 1]\<rparr>)"
    by (simp add: clone_def unusable_def s_init_def)
  have t: "run [] [Callable (throws ''boom'')] 2 3
             (s_init\<lparr>heap := heap s_init @ [heap s_init ! 0, heap s_init ! 1]\<rparr>)
           = (Inl (Thrown ''boom''),
              s_init\<lparr>arrays := 1,
                heap := heap s_init @ [heap s_init ! 0, heap s_init ! 1, heap s_init ! 0]\<rparr>)"
    by (simp add: run_Callable clone_def unusable_def throws_def s_init_def)
  have ch: "Chain_handlers 0 ?st = Inr 0" and el: "elements ?st 0 = Inr ?hs"
    by (simp_all add: Chain_new_def Chain_handlers_def elements_def array_alloc_def
        store_init_def)
  have a: "chain 0 1 [Callable (throws ''boom''), Callable spy_handler] s_init
      = (Inl (Thrown ''boom''),
         s_init\<lparr>arrays := arrays s_init + 2, heap := heap s_init @ [heap s_init ! 0]\<rparr>)"
    by (rule failure_propagates [where f = "throws ''boom''" and request = 0 and s = s_init
          and rest = "[Callable spy_handler]" and response = 1,
          THEN conjunct1, rule_format, OF cl h])
  have b: "nextHandler [] [Callable (throws ''boom'')] 0 1 None s_init
      = (Inl (Thrown ''boom''),
         s_init\<lparr>arrays := 1,
                heap := heap s_init @ [heap s_init ! 0, heap s_init ! 1, heap s_init ! 0]\<rparr>)"
    by (rule failure_propagates [where nextRequest = None and request = 0 and t = s_init
          and response = 1 and seen = "[]" and rest = "[Callable (throws ''boom'')]",
          THEN conjunct1 [OF conjunct2], rule_format, OF c1 c2 t])
  have d: "Chain_respond 0 ?st 0 (Some 1) s_init =
        chain (length (heap s_init) + 1) (length (heap s_init) + 2) ?hs
          (s_init\<lparr>heap := (heap s_init)[0 := mark_used (RequestObj ?c)]
                            @ [RequestObj ?c, RequestObj ?c, ResponseObj ?fb]\<rparr>)"
    by (rule failure_propagates [where request = 0 and s = s_init and response = 1
          and this = 0 and st = ?st,
          THEN conjunct2, THEN conjunct2, rule_format, OF ch el r c u p fb u'])
  have "fst (Chain_respond 0 ?st 0 (Some 1) s_init) = Inl (Thrown ''boom'')"
    and "user (snd (Chain_respond 0 ?st 0 (Some 1) s_init)) = 0"
    unfolding d
    by (simp_all add: chain_run run_Callable clone_def unusable_def mark_used_def throws_def
        s_init_def nth_append)
  with cl r p a c1 c2 b ch el c fb u u' show ?thesis
    unfolding Let_def by simp
qed

subsection \<open>C9: appending to the builder\<close>

text \<open>
  Claim C9: \<open>next\<close> appends the given handlers, in the order of the arguments, to
  the end of the stored sequence and returns the builder it was called on; a read of
  \<open>handlers\<close> made before the call is not changed by it: the field refers to a new
  array, and every array that existed before the call has the elements it had. On a
  new builder, \<open>next(h1, h2, h3)\<close> followed by \<open>next(h4)\<close> gives the four handlers
  in this order, and the array read in between still holds the first three.
\<close>

theorem append_ordering:
  "(Chain_handlers this st = Inr a \<longrightarrow> elements st a = Inr xs \<longrightarrow>
      (\<exists>st' a'. Chain_next this hs st = Inr (this, st')
          \<and> Chain_handlers this st' = Inr a' \<and> elements st' a' = Inr (xs @ hs)
          \<and> a' \<noteq> a \<and> elements st' a = Inr xs
          \<and> (\<forall>b < length (handler_arrays st). elements st' b = elements st b)))
   \<and> (\<exists>c st1 st2 st3 a2 a3.
          Chain_new [] st0 = (c, st1)
        \<and> Chain_next c [h1, h2, h3] st1 = Inr (c, st2)
        \<and> Chain_handlers c st2 = Inr a2 \<and> elements st2 a2 = Inr [h1, h2, h3]
        \<and> Chain_next c [h4] st2 = Inr (c, st3)
        \<and> Chain_handlers c st3 = Inr a3 \<and> elements st3 a3 = Inr [h1, h2, h3, h4]
        \<and> length [h1, h2, h3, h4] = 4
        \<and> elements st3 a2 = Inr [h1, h2, h3])"
proof (intro conjI impI)
  assume h: "Chain_handlers this st = Inr a" and e: "elements st a = Inr xs"
  from e have "a < length (handler_arrays st)"
    by (simp add: elements_def split: if_splits)
  with Chain_next_appends [OF h e, of hs] e
  show "\<exists>st' a'. Chain_next this hs st = Inr (this, st')
          \<and> Chain_handlers this st' = Inr a' \<and> elements st' a' = Inr (xs @ hs)
          \<and> a' \<noteq> a \<and> elements st' a = Inr xs
          \<and> (\<forall>b < length (handler_arrays st). elements st' b = elements st b)"
    by (metis (no_types, lifting))
next
  obtain c st1 a1 where
    n: "Chain_new [] st0 = (c, st1)"
    and h1: "Chain_handlers c st1 = Inr a1" and e1: "elements st1 a1 = Inr []"
    using Chain_new_handlers [of "[]" st0] by blast
  from Chain_next_appends [OF h1 e1, of "[h1, h2, h3]"] obtain st2 a2 where
    n2: "Chain_next c [h1, h2, h3] st1 = Inr (c, st2)"
    and h2: "Chain_handlers c st2 = Inr a2" and e2: "elements st2 a2 = Inr [h1, h2, h3]"
    by auto
  from Chain_next_appends [OF h2 e2, of "[h4]"] obtain st3 a3 where
    n3: "Chain_next c [h4] st2 = Inr (c, st3)"
    and h3: "Chain_handlers c st3 = Inr a3" and e3: "elements st3 a3 = Inr [h1, h2, h3, h4]"
    and old: "\<forall>b < length (handler_arrays st2). elements st3 b = elements st2 b"
    by auto
  have "a2 < length (handler_arrays st2)"
    using e2 by (simp add: elements_def split: if_splits)
  with old e2 have "elements st3 a2 = Inr [h1, h2, h3]" by simp
  with n n2 h2 e2 n3 h3 e3
  show "\<exists>c st1 st2 st3 a2 a3.
          Chain_new [] st0 = (c, st1)
        \<and> Chain_next c [h1, h2, h3] st1 = Inr (c, st2)
        \<and> Chain_handlers c st2 = Inr a2 \<and> elements st2 a2 = Inr [h1, h2, h3]
        \<and> Chain_next c [h4] st2 = Inr (c, st3)
        \<and> Chain_handlers c st3 = Inr a3 \<and> elements st3 a3 = Inr [h1, h2, h3, h4]
        \<and> length [h1, h2, h3, h4] = 4
        \<and> elements st3 a2 = Inr [h1, h2, h3]"
    by (intro exI [of _ c] exI [of _ st1] exI [of _ st2] exI [of _ st3] exI [of _ a2]
        exI [of _ a3]) simp
qed

theorem append_ordering_witness:
  "(let st = snd (Chain_new [''a''] store_init);
        st' = \<lparr>handler_arrays = handler_arrays st @ [''b'', ''c''] # [''a'', ''b'', ''c''] # [],
               chains = [3]\<rparr>
    in Chain_handlers 0 st = Inr 0 \<and> elements st 0 = Inr [''a'']
     \<and> Chain_next 0 [''b'', ''c''] st = Inr (0, st')
     \<and> Chain_handlers 0 st' = Inr 3
     \<and> elements st' 3 = Inr [''a'', ''b'', ''c'']
     \<and> elements st' 0 = Inr [''a''])"
proof -
  let ?st = "snd (Chain_new [''a''] store_init)"
  have h: "Chain_handlers 0 ?st = Inr 0" and e: "elements ?st 0 = Inr [''a'']"
    by (simp_all add: Chain_new_def Chain_handlers_def elements_def array_alloc_def
        store_init_def)
  from append_ordering [THEN conjunct1, rule_format, OF h e, of "[''b'', ''c'']"] h e
  show ?thesis
    by (simp add: Let_def Chain_next_def Chain_new_def Chain_handlers_def elements_def
        array_alloc_def store_init_def)
qed

subsection \<open>C10: every call of the next handler evaluates the tail\<close>

text \<open>
  Claim C10, as stated: each call of the next handler evaluates the rest of the
  sequence again, so the handler that follows is invoked once for each call. It is
  not when the body of the fallback response has been read: the next handler
  duplicates the fallback before it evaluates the rest, the duplication raises a
  \<^verbatim>\<open>TypeError\<close>, and one call of the next handler gives no invocation of the handler
  that follows.
\<close>

theorem next_without_invocation_counterexample:
  "fst (chain 0 1 [Callable (calls_next 1), Callable spy_handler] s_used_fallback)
     = Inl TypeError
   \<and> user (snd (chain 0 1 [Callable (calls_next 1), Callable spy_handler] s_used_fallback)) = 0"
  by (simp add: chain_run run_Callable clone_def nextHandler_def calls_next_def
      new_Response_def unusable_def s_used_fallback_def nth_append)

text \<open>
  Claim C10, amended: a handler may call its next handler any number of times within
  one call of \<open>chain\<close>. Every call of the next handler, in any state \<open>t\<close> in which
  the request it is to pass on and the fallback can be duplicated, is one invocation
  of the handler \<open>h1\<close> that follows, on new duplicates of request and response,
  followed by two duplications of its result; a call in a state in which the request
  or the fallback cannot be duplicated fails with a \<^verbatim>\<open>TypeError\<close> and invokes
  nothing. And for a request and a fallback that can be duplicated, with a first
  handler that calls its next handler \<open>k\<close> times and the spy behind it, whatever
  follows the spy, the call returns a response and the spy has been called \<open>k\<close> times
  more.
\<close>

theorem next_called_k_times:
  "(\<forall>a t. (let arg = (case a of None \<Rightarrow> request | Some x \<Rightarrow> x);
               call = nextHandler [] (Callable h1 # rest) request response a t
           in (cloneable t arg \<longrightarrow> cloneable t response \<longrightarrow>
                 call = await_clone (await_clone
                   (h1 (length (heap t) + 2)
                       (nextHandler [] rest (length (heap t)) (length (heap t) + 1))
                       (t\<lparr>arrays := arrays t + 1,
                          heap := heap t @ [heap t ! arg, heap t ! response, heap t ! arg]\<rparr>))))
            \<and> (\<not> cloneable t arg \<longrightarrow> call = (Inl TypeError, t))
            \<and> (cloneable t arg \<longrightarrow> response < length (heap t) \<longrightarrow>
                 unusable (heap t ! response) \<longrightarrow>
                 call = (Inl TypeError, t\<lparr>heap := heap t @ [heap t ! arg]\<rparr>))))
   \<and> (cloneable s request \<longrightarrow> cloneable s response \<longrightarrow>
        (\<exists>r s'. chain request response (Callable (calls_next k) # Callable spy_handler # rest) s
                   = (Inr r, s')
              \<and> user s' = user s + k))"
proof (intro conjI allI impI)
  fix a t
  define arg where "arg = (case a of None \<Rightarrow> request | Some x \<Rightarrow> x)"
  define call where "call = nextHandler [] (Callable h1 # rest) request response a t"
  have 1: "call = await_clone (await_clone
                   (h1 (length (heap t) + 2)
                       (nextHandler [] rest (length (heap t)) (length (heap t) + 1))
                       (t\<lparr>arrays := arrays t + 1,
                          heap := heap t @ [heap t ! arg, heap t ! response, heap t ! arg]\<rparr>)))"
    if "cloneable t arg" "cloneable t response"
    using that unfolding call_def arg_def
    by (cases a) (simp_all add: nextHandler_None nextHandler_Some run_Callable clone_def
        cloneable_def nth_append)
  have 2: "call = (Inl TypeError, t)" if "\<not> cloneable t arg"
    using that unfolding call_def arg_def nextHandler_def
    by (simp add: clone_not_cloneable)
  have 3: "call = (Inl TypeError, t\<lparr>heap := heap t @ [heap t ! arg]\<rparr>)"
    if "cloneable t arg" "response < length (heap t)" "unusable (heap t ! response)"
    using that unfolding call_def arg_def nextHandler_def
    by (simp add: clone_cloneable) (simp add: clone_def nth_append)
  show "let arg = (case a of None \<Rightarrow> request | Some x \<Rightarrow> x);
            call = nextHandler [] (Callable h1 # rest) request response a t
        in (cloneable t arg \<longrightarrow> cloneable t response \<longrightarrow>
                 call = await_clone (await_clone
                   (h1 (length (heap t) + 2)
                       (nextHandler [] rest (length (heap t)) (length (heap t) + 1))
                       (t\<lparr>arrays := arrays t + 1,
                          heap := heap t @ [heap t ! arg, heap t ! response, heap t ! arg]\<rparr>))))
            \<and> (\<not> cloneable t arg \<longrightarrow> call = (Inl TypeError, t))
            \<and> (cloneable t arg \<longrightarrow> response < length (heap t) \<longrightarrow>
                 unusable (heap t ! response) \<longrightarrow>
                 call = (Inl TypeError, t\<lparr>heap := heap t @ [heap t ! arg]\<rparr>))"
    using 1 2 3 unfolding Let_def arg_def [symmetric] call_def [symmetric] by blast
next
  assume rq: "cloneable s request" and rs: "cloneable s response"
  define s1 where "s1 = s\<lparr>arrays := Suc (Suc (arrays s)),
               heap := heap s @ [heap s ! request,
                 ResponseObj \<lparr>res_status = 200, res_headers = [], res_body = None,
                   res_bodyUsed = False\<rparr>]\<rparr>"
  have "cloneable s1 request" "cloneable s1 response" "cloneable s1 (Suc (length (heap s)))"
    using rq rs unfolding s1_def by (simp_all add: cloneable_def unusable_def nth_append)
  from next_times_spy [OF this, of k rest]
  obtain r s2 where
    nt: "next_times k (nextHandler [] (Callable spy_handler # rest) request response)
           (Suc (length (heap s))) s1 = (Inr r, s2)"
    and u: "user s2 = user s1 + k" and obj: "cloneable s2 r"
    by blast
  have "chain request response (Callable (calls_next k) # Callable spy_handler # rest) s
          = clone r s2"
    using rq nt unfolding s1_def
    by (simp add: chain_run run_Callable clone_cloneable calls_next_def new_Response_def)
  with obj u show "\<exists>r s'. chain request response
        (Callable (calls_next k) # Callable spy_handler # rest) s = (Inr r, s')
      \<and> user s' = user s + k"
    by (simp add: clone_cloneable s1_def)
qed

theorem next_called_k_times_witness:
  "cloneable s_init 0 \<and> cloneable s_init 1
   \<and> fst (nextHandler [] [Callable spy_handler] 0 1 None s_init) = Inr 7
   \<and> user (snd (nextHandler [] [Callable spy_handler] 0 1 None s_init)) = 1
   \<and> \<not> cloneable s_used_request 0
   \<and> nextHandler [] [Callable spy_handler] 0 1 None s_used_request
       = (Inl TypeError, s_used_request)
   \<and> cloneable s_used_fallback 0 \<and> 1 < length (heap s_used_fallback)
   \<and> unusable (heap s_used_fallback ! 1)
   \<and> user (snd (nextHandler [] [Callable spy_handler] 0 1 None s_used_fallback)) = 0
   \<and> (\<exists>r s'. chain 0 1 [Callable (calls_next 3), Callable spy_handler, Callable spy_handler]
                 s_init = (Inr r, s')
            \<and> user s' = 3)"
proof -
  have r: "cloneable s_init 0" and p: "cloneable s_init 1"
    and u: "user s_init = 0"
    and nr: "\<not> cloneable s_used_request 0"
    and f: "cloneable s_used_fallback 0" "1 < length (heap s_used_fallback)"
      "unusable (heap s_used_fallback ! 1)"
    by (simp_all add: s_init_def s_used_request_def s_used_fallback_def cloneable_def
        unusable_def)
  note inst = next_called_k_times [where request = 0 and response = 1 and ?h1.0 = spy_handler
      and k = 3 and s = s_init]
  from inst [where rest = "[]", THEN conjunct1, rule_format, of None s_init] r p
  have 1: "nextHandler [] [Callable spy_handler] 0 1 None s_init
            = await_clone (await_clone
                (spy_handler (length (heap s_init) + 2)
                    (nextHandler [] [] (length (heap s_init)) (length (heap s_init) + 1))
                    (s_init\<lparr>arrays := arrays s_init + 1,
                       heap := heap s_init @ [heap s_init ! 0, heap s_init ! 1,
                                         heap s_init ! 0]\<rparr>)))"
    by (simp add: Let_def)
  from inst [where rest = "[]", THEN conjunct1, rule_format, of None s_used_request] nr
  have 2: "nextHandler [] [Callable spy_handler] 0 1 None s_used_request
            = (Inl TypeError, s_used_request)"
    by (simp add: Let_def)
  from inst [where rest = "[]", THEN conjunct1, rule_format, of None s_used_fallback] f
  have 3: "nextHandler [] [Callable spy_handler] 0 1 None s_used_fallback
            = (Inl TypeError,
               s_used_fallback\<lparr>heap := heap s_used_fallback @ [heap s_used_fallback ! 0]\<rparr>)"
    by (simp add: Let_def)
  from inst [where rest = "[Callable spy_handler]", THEN conjunct2] r p u
  have 4: "\<exists>r s'. chain 0 1 [Callable (calls_next 3), Callable spy_handler, Callable spy_handler]
                 s_init = (Inr r, s')
            \<and> user s' = 3"
    by simp
  have 5: "fst (nextHandler [] [Callable spy_handler] 0 1 None s_init) = Inr 7"
    "user (snd (nextHandler [] [Callable spy_handler] 0 1 None s_init)) = 1"
    unfolding 1
    by (simp_all add: s_init_def spy_handler_def new_Response_def clone_def unusable_def
        nth_append)
  have 6: "user (snd (nextHandler [] [Callable spy_handler] 0 1 None s_used_fallback)) = 0"
    unfolding 3 by (simp add: s_used_fallback_def)
  from r p nr f 2 4 5 6 show ?thesis
    by simp
qed

end
